theory Spec2Isabelle
  imports Complex_Main
begin

section \<open>Library primitives used by the harness\<close>

subsection \<open>Decimal formatting (\<^verbatim>\<open>%d\<close> and \<^verbatim>\<open>%v\<close> of an \<^verbatim>\<open>int\<close>)\<close>

text \<open>
  Both programs build object names and metadata keys with \<^verbatim>\<open>fmt.Sprintf\<close> and the verbs
  \<^verbatim>\<open>%d\<close> / \<^verbatim>\<open>%v\<close> applied to an \<^verbatim>\<open>int\<close>: the decimal digits, most significant first,
  with a leading minus sign for a negative number. The digits are produced as Go's
  formatter does, from the least significant one, into a buffer filled from the right.
\<close>

definition digitChar :: "nat \<Rightarrow> char" where
  "digitChar d = char_of (48 + d)"

fun fmtDigits :: "nat \<Rightarrow> string \<Rightarrow> string" where
  "fmtDigits u buf =
     (if u < 10 then digitChar u # buf
      else fmtDigits (u div 10) (digitChar (u mod 10) # buf))"

declare fmtDigits.simps [simp del]

definition fmt_d :: "int \<Rightarrow> string" where
  "fmt_d n = (if n < 0 then CHR ''-'' # fmtDigits (nat (- n)) [] else fmtDigits (nat n) [])"

text \<open>Reading a digit string back; \<open>Atoi\<close> uses it, and it inverts the formatter.\<close>

definition digitVal :: "char \<Rightarrow> nat" where
  "digitVal c = of_char c - 48"

definition isDigit :: "char \<Rightarrow> bool" where
  "isDigit c \<longleftrightarrow> (48::nat) \<le> of_char c \<and> of_char c \<le> (57::nat)"

fun readDigits :: "nat \<Rightarrow> string \<Rightarrow> nat" where
  "readDigits acc [] = acc"
| "readDigits acc (c # cs) = readDigits (acc * 10 + digitVal c) cs"

subsection \<open>\<^verbatim>\<open>strconv.Atoi\<close>\<close>

text \<open>
  \<^verbatim>\<open>strconv.Atoi\<close> belongs to the Go standard library. Its documented behaviour on a
  64-bit target: an optional sign \<^verbatim>\<open>+\<close> or \<^verbatim>\<open>-\<close>, then at least one decimal digit and
  nothing else; a syntax error otherwise, and a range error when the value does not fit
  a signed 64-bit \<^verbatim>\<open>int\<close>.
\<close>

datatype num_error = ErrSyntax | ErrRange

definition minInt :: int where "minInt = - (2 ^ 63)"
definition maxInt :: int where "maxInt = 2 ^ 63 - 1"

definition Atoi :: "string \<Rightarrow> num_error + int" where
  "Atoi s =
     (case s of
        [] \<Rightarrow> Inl ErrSyntax
      | c # cs \<Rightarrow>
          (let ds = (if c = CHR ''-'' \<or> c = CHR ''+'' then cs else s)
           in if ds = [] \<or> \<not> list_all isDigit ds then Inl ErrSyntax
              else (let n = int (readDigits 0 ds);
                        v = (if c = CHR ''-'' then - n else n)
                    in if v < minInt \<or> maxInt < v then Inl ErrRange else Inr v)))"

subsection \<open>Machine arithmetic on \<^verbatim>\<open>int\<close>\<close>

text \<open>
  Go's \<^verbatim>\<open>int\<close> is 64 bits wide on the 64-bit targets; a product that leaves the range
  wraps around silently (two's complement).
\<close>

definition wrapInt :: "int \<Rightarrow> int" where
  "wrapInt x = (x + 2 ^ 63) mod 2 ^ 64 - 2 ^ 63"

definition mulInt :: "int \<Rightarrow> int \<Rightarrow> int" where
  "mulInt a b = wrapInt (a * b)"

subsection \<open>\<^verbatim>\<open>bytes.Repeat\<close> and \<^verbatim>\<open>make\<close>\<close>

text \<open>
  \<^verbatim>\<open>bytes.Repeat(b, count)\<close> returns \<^verbatim>\<open>count\<close> copies of \<^verbatim>\<open>b\<close> and panics on a negative
  \<^verbatim>\<open>count\<close>. (It also panics when the length of the result overflows, which a
  one-byte \<^verbatim>\<open>b\<close> cannot cause.) \<^verbatim>\<open>make([]byte, n)\<close> panics on a negative \<^verbatim>\<open>n\<close>.
  Exhausted memory is outside the model.
\<close>

datatype runtime_panic =
    NegativeRepeatCount
  | MakesliceLenOutOfRange

definition bytes_Repeat :: "char list \<Rightarrow> int \<Rightarrow> runtime_panic + char list" where
  "bytes_Repeat b count =
     (if count < 0 then Inl NegativeRepeatCount
      else Inr (concat (replicate (nat count) b)))"

subsection \<open>\<^verbatim>\<open>float64\<close>\<close>

text \<open>
  The statistics are computed in \<^verbatim>\<open>float64\<close>. The model keeps the special values of
  IEEE 754 that a division can produce and takes a finite value as the real number it
  denotes: rounding to 53 bits is not modelled, and the two zeros are one value. Dividing
  by zero never panics in Go for floating-point operands; the only zero divisor these
  programs can form is the positive zero \<^verbatim>\<open>float64(0) / 1e9\<close>.
\<close>

datatype float64 = Finite real | PosInf | NegInf | NaN

definition float64_of_int :: "int \<Rightarrow> float64" where
  "float64_of_int n = Finite (real_of_int n)"

fun fdiv :: "float64 \<Rightarrow> float64 \<Rightarrow> float64" where
  "fdiv NaN _ = NaN"
| "fdiv _ NaN = NaN"
| "fdiv (Finite x) (Finite y) =
     (if y = 0 then (if x = 0 then NaN else if 0 < x then PosInf else NegInf)
      else Finite (x / y))"
| "fdiv (Finite x) _ = Finite 0"
| "fdiv PosInf (Finite y) = (if y < 0 then NegInf else PosInf)"
| "fdiv NegInf (Finite y) = (if y < 0 then PosInf else NegInf)"
| "fdiv _ _ = NaN"

subsection \<open>\<^verbatim>\<open>time\<close>\<close>

text \<open>
  A \<^verbatim>\<open>time.Time\<close> is an instant (nanoseconds since the Unix epoch) together with the
  location it is displayed in, of which only the offset east of UTC matters (in
  seconds). \<^verbatim>\<open>time.Now()\<close> carries the local location, \<^verbatim>\<open>UTC()\<close> replaces it by UTC
  (and drops the monotonic clock reading, so that \<^verbatim>\<open>time.Since\<close> of such a value is the
  difference of two wall-clock readings). \<^verbatim>\<open>Sub\<close> saturates at the range of a
  \<^verbatim>\<open>Duration\<close>, an \<^verbatim>\<open>int64\<close> count of nanoseconds.
\<close>

record time =
  unixNano :: int
  zoneOffset :: int

definition time_Now :: "int \<Rightarrow> int \<Rightarrow> time" where
  "time_Now localOff reading = \<lparr>unixNano = reading, zoneOffset = localOff\<rparr>"

definition UTC :: "time \<Rightarrow> time" where
  "UTC t = t\<lparr>zoneOffset := 0\<rparr>"

definition time_Sub :: "time \<Rightarrow> time \<Rightarrow> int" where
  "time_Sub t u = max minInt (min maxInt (unixNano t - unixNano u))"

text \<open>
  Days since 1 January 1970 to the proleptic Gregorian date (year, month, day), by
  400-year eras starting on 1 March.
\<close>

definition civil :: "int \<Rightarrow> int \<times> int \<times> int" where
  "civil days =
     (let z = days + 719468;
          era = z div 146097;
          doe = z - era * 146097;
          yoe = (doe - doe div 1460 + doe div 36524 - doe div 146096) div 365;
          doy = doe - (365 * yoe + yoe div 4 - yoe div 100);
          mp = (5 * doy + 2) div 153;
          d = doy - (153 * mp + 2) div 5 + 1;
          m = (if mp < 10 then mp + 3 else mp - 9);
          y = yoe + era * 400 + (if m \<le> 2 then 1 else 0)
      in (y, m, d))"

definition zeroPad :: "nat \<Rightarrow> int \<Rightarrow> string" where
  "zeroPad width n =
     (let ds = fmtDigits (nat \<bar>n\<bar>) []
      in (if n < 0 then ''-'' else '''') @ replicate (width - length ds) (CHR ''0'') @ ds)"

text \<open>
  \<^verbatim>\<open>t.Format("2006-01-02T15:04:05.000Z")\<close>: year, month, day, hour, minute and second of
  the wall clock at the location of \<^verbatim>\<open>t\<close>, three digits of the fraction of the second
  (cut, not rounded), and the letter \<^verbatim>\<open>Z\<close>, which in this layout is literal text and
  not a zone element.
\<close>

definition Format :: "time \<Rightarrow> string" where
  "Format t =
     (let sec = unixNano t div 1000000000 + zoneOffset t;
          nsec = unixNano t mod 1000000000;
          (y, m, d) = civil (sec div 86400);
          sod = sec mod 86400
      in zeroPad 4 y @ ''-'' @ zeroPad 2 m @ ''-'' @ zeroPad 2 d @ ''T''
         @ zeroPad 2 (sod div 3600) @ '':'' @ zeroPad 2 (sod mod 3600 div 60) @ '':''
         @ zeroPad 2 (sod mod 60) @ ''.'' @ zeroPad 3 (nsec div 1000000) @ ''Z'')"

section \<open>The benchmark driver\<close>

text \<open>
  The repository holds two versions of the driver: \<^verbatim>\<open>parallel-put.go\<close>, which tags object
  names and its one-line report with a node identifier, and an older file (here
  \<open>Part000\<close>) with a three-line report. They share \<^verbatim>\<open>parallelUploads\<close> and the
  statistics and differ in the names, the metadata loop and the report. A \<open>variant\<close>
  selects the file where they differ.
\<close>

datatype variant = ParallelPut | Part000

definition defaultMetaCount :: int where "defaultMetaCount = 1"
definition defaultMetaSize :: int where "defaultMetaSize = 1024"

definition letterBytes :: string where
  "letterBytes = ''abcdefghijklmnopqrstuvwxyzABCDEFGHIJKLMNOPQRSTUVWXYZ''"

text \<open>
  \<^verbatim>\<open>randStringBytes(n)\<close>: \<^verbatim>\<open>make([]byte, n)\<close>, then one draw of
  \<^verbatim>\<open>rand.Intn(len(letterBytes))\<close> per position. The draws are an input of the model
  (\<open>draw i\<close> is the \<open>i\<close>-th one), reduced into the range that \<^verbatim>\<open>Intn\<close> guarantees.
\<close>

definition randStringBytes :: "(nat \<Rightarrow> nat) \<Rightarrow> int \<Rightarrow> runtime_panic + string" where
  "randStringBytes draw n =
     (if n < 0 then Inl MakesliceLenOutOfRange
      else Inr (map (\<lambda>i. letterBytes ! (draw i mod length letterBytes)) [0..<nat n]))"

subsection \<open>The environment of a run\<close>

record UploadInput =
  Body :: "char list"
  Bucket :: string
  Key :: string
  Metadata :: "string \<rightharpoonup> string"

text \<open>
  Everything the program reads from outside: the environment variables, the three flags
  after \<^verbatim>\<open>flag.Parse()\<close>, the answer of the storage client to an upload (\<open>None\<close> is
  \<^verbatim>\<open>nil\<close>, \<open>Some msg\<close> an error), the random draws seen by the task of each object, the
  wall clock at the three places where it is read (nanoseconds), and the offset of the
  local time zone (seconds east of UTC).
\<close>

record world =
  env :: "string \<Rightarrow> string option"
  objectSize :: int
  metaCountFlag :: int
  metaSizeFlag :: int
  Upload :: "UploadInput \<Rightarrow> string option"
  Intn :: "string \<Rightarrow> nat \<Rightarrow> nat"
  clockStart :: int
  clockSince :: int
  clockEnd :: int
  localOffset :: int

definition Getenv :: "world \<Rightarrow> string \<Rightarrow> string" where
  "Getenv w k = (case env w k of None \<Rightarrow> [] | Some x \<Rightarrow> x)"

subsection \<open>Object names (\<^verbatim>\<open>main\<close>, the first loop)\<close>

definition objectName :: "variant \<Rightarrow> string \<Rightarrow> int \<Rightarrow> string" where
  "objectName v nodeNumber k =
     (case v of
        ParallelPut \<Rightarrow> ''object-'' @ nodeNumber @ ''-'' @ fmt_d k
      | Part000 \<Rightarrow> ''object'' @ fmt_d k)"

function objectNamesLoop :: "variant \<Rightarrow> string \<Rightarrow> int \<Rightarrow> int \<Rightarrow> string list \<Rightarrow> string list" where
  "objectNamesLoop v nodeNumber i conc objectNames =
     (if i < conc
      then objectNamesLoop v nodeNumber (i + 1) conc
             (objectNames @ [objectName v nodeNumber (i + 1)])
      else objectNames)"
  by pat_completeness auto
termination
  by (relation "measure (\<lambda>(v, nodeNumber, i, conc, objectNames). nat (conc - i))") auto

declare objectNamesLoop.simps [simp del]

subsection \<open>\<^verbatim>\<open>uploadBlob\<close>\<close>

definition metaKey :: "int \<Rightarrow> string" where
  "metaKey i = ''test-metadata-key'' @ ''-'' @ fmt_d i"

text \<open>
  \<^verbatim>\<open>parallel-put.go\<close>: one value, drawn before the loop, stored under the keys of
  \<^verbatim>\<open>i = 1 .. metaCount\<close>. The map holds pointers to the one variable; nothing writes
  to it afterwards, so the map is modelled with the string itself. The counter is an
  unbounded integer: it could only wrap after \<open>2 ^ 63\<close> insertions.
\<close>

function metaLoop :: "int \<Rightarrow> int \<Rightarrow> string \<Rightarrow> (string \<rightharpoonup> string) \<Rightarrow> (string \<rightharpoonup> string)" where
  "metaLoop i metaCount metadataValue meta =
     (if i \<le> metaCount
      then metaLoop (i + 1) metaCount metadataValue (meta(metaKey i \<mapsto> metadataValue))
      else meta)"
  by pat_completeness auto
termination
  by (relation "measure (\<lambda>(i, metaCount, metadataValue, meta). nat (metaCount + 1 - i))") auto

declare metaLoop.simps [simp del]

text \<open>
  The older file: \<^verbatim>\<open>for n := 0; n <= metaCount.Value; n++\<close>, with a fresh value of
  \<^verbatim>\<open>RandStringBytes(1024)\<close> stored under the key of \<^verbatim>\<open>metaCount\<close> (not of \<^verbatim>\<open>n\<close>) in
  every round. \<^verbatim>\<open>metaCount\<close> is an \<^verbatim>\<open>int\<close> there, so \<^verbatim>\<open>metaCount.Value\<close> is read as the
  integer itself, and \<^verbatim>\<open>aws.String\<close> as the string it points to. Round \<open>n\<close> uses the
  draws \<open>1024 * n\<close> to \<open>1024 * n + 1023\<close>.
\<close>

function metaLoop_part000 ::
  "(nat \<Rightarrow> nat) \<Rightarrow> int \<Rightarrow> int \<Rightarrow> (string \<rightharpoonup> string) \<Rightarrow> runtime_panic + (string \<rightharpoonup> string)" where
  "metaLoop_part000 draw n metaCount meta =
     (if n \<le> metaCount
      then (case randStringBytes (\<lambda>j. draw (nat n * 1024 + j)) 1024 of
              Inl p \<Rightarrow> Inl p
            | Inr metadataValue \<Rightarrow>
                metaLoop_part000 draw (n + 1) metaCount
                  (meta(metaKey metaCount \<mapsto> metadataValue)))
      else Inr meta)"
  by pat_completeness auto
termination
  by (relation "measure (\<lambda>(draw, n, metaCount, meta). nat (metaCount + 1 - n))") auto

declare metaLoop_part000.simps [simp del]

definition uploadBlob_meta ::
  "variant \<Rightarrow> (nat \<Rightarrow> nat) \<Rightarrow> int \<Rightarrow> int \<Rightarrow> runtime_panic + (string \<rightharpoonup> string)" where
  "uploadBlob_meta v draw metaCount metaSize =
     (case v of
        ParallelPut \<Rightarrow>
          (case randStringBytes draw metaSize of
             Inl p \<Rightarrow> Inl p
           | Inr metadataValue \<Rightarrow> Inr (metaLoop 1 metaCount metadataValue Map.empty))
      | Part000 \<Rightarrow> metaLoop_part000 draw 0 metaCount Map.empty)"

text \<open>
  \<^verbatim>\<open>uploadBlob\<close> returns the error of \<^verbatim>\<open>uploader.Upload\<close>. The model also returns the
  request, so that a run can record what was sent. \<open>Inl\<close> is a panic while the metadata
  is built, before anything is sent.
\<close>

definition uploadBlob ::
  "variant \<Rightarrow> world \<Rightarrow> char list \<Rightarrow> string \<Rightarrow> int \<Rightarrow> int
     \<Rightarrow> runtime_panic + (UploadInput \<times> string option)" where
  "uploadBlob v w dat name metaCount metaSize =
     (case uploadBlob_meta v (Intn w name) metaCount metaSize of
        Inl p \<Rightarrow> Inl p
      | Inr meta \<Rightarrow>
          (let input = \<lparr>Body = dat, Bucket = Getenv w ''BUCKET'', Key = name, Metadata = meta\<rparr>
           in Inr (input, Upload w input)))"

subsection \<open>Statistics and report (\<^verbatim>\<open>main\<close>, after the uploads)\<close>

definition totalSize :: "int \<Rightarrow> int \<Rightarrow> int" where
  "totalSize conc sz = mulInt conc sz"

definition seconds :: "int \<Rightarrow> float64" where
  "seconds elapsed = fdiv (float64_of_int elapsed) (float64_of_int 1000000000)"

definition speed :: "int \<Rightarrow> int \<Rightarrow> float64" where
  "speed conc elapsed = fdiv (float64_of_int conc) (seconds elapsed)"

definition bandwidth :: "int \<Rightarrow> int \<Rightarrow> int \<Rightarrow> float64" where
  "bandwidth conc sz elapsed =
     fdiv (fdiv (fdiv (float64_of_int (totalSize conc sz)) (seconds elapsed))
             (Finite 1024)) (Finite 1024)"

text \<open>
  What is written to standard output is kept as the calls of \<^verbatim>\<open>fmt\<close> with their format
  string and operands; the text that \<^verbatim>\<open>fmt\<close> makes of a duration or a float is not
  modelled. \<open>D\<close> is a \<^verbatim>\<open>time.Duration\<close> in nanoseconds.
\<close>

datatype arg = S string | I int | D int | F float64

datatype call = Printf string "arg list" | Println "arg list"

definition startTime :: "world \<Rightarrow> time" where
  "startTime w = UTC (time_Now (localOffset w) (clockStart w))"

definition elapsedOf :: "world \<Rightarrow> int" where
  "elapsedOf w = time_Sub (time_Now (localOffset w) (clockSince w)) (startTime w)"

definition report :: "variant \<Rightarrow> world \<Rightarrow> int \<Rightarrow> call list" where
  "report v w conc =
     (let start = startTime w; elapsed = elapsedOf w
      in case v of
           ParallelPut \<Rightarrow>
             [Printf (''PUT;%s;%s;%d;%d;%d;%s;%f;%f;%s;%s'' @ [CHR 0x0A])
                [S (Getenv w ''NODE''), S (Getenv w ''CONCURRENCY''), I (objectSize w),
                 I (metaCountFlag w), I (metaSizeFlag w), D elapsed,
                 F (speed conc elapsed), F (bandwidth conc (objectSize w) elapsed),
                 S (Format start), S (Format (time_Now (localOffset w) (clockEnd w)))]]
         | Part000 \<Rightarrow>
             [Println [S ''Elapsed time :'', D elapsed],
              Printf (''Speed        : %4.0f objs/sec'' @ [CHR 0x0A]) [F (speed conc elapsed)],
              Printf (''Bandwidth    : %4.0f MBit/sec'' @ [CHR 0x0A])
                [F (bandwidth conc (objectSize w) elapsed)]])"

subsection \<open>\<^verbatim>\<open>parallelUploads\<close> and the rest of \<^verbatim>\<open>main\<close>, as a machine\<close>

text \<open>
  \<^verbatim>\<open>parallelUploads\<close> starts one goroutine per object name and waits on a
  \<^verbatim>\<open>sync.WaitGroup\<close>. Each goroutine is
  \<^verbatim>\<open>defer wg.Done(); if err := uploadBlob(...); err != nil { panic(err) }\<close>.
  A panic that nothing recovers first runs the deferred calls of its goroutine and then
  ends the program; until the program has ended, the other goroutines keep running. The
  run is therefore a machine stepped by a schedule, a list naming who moves next:
  \<^item> \<open>Main\<close> at \<open>ForRange k\<close> performs one round of the loop (\<^verbatim>\<open>wg.Add(1)\<close> and \<^verbatim>\<open>go\<close> for
    name \<open>k\<close>), at \<open>WgWait\<close> it passes \<^verbatim>\<open>wg.Wait()\<close> when the counter is zero and is
    blocked otherwise, at \<open>Stats\<close> it computes the statistics and prints the report;
  \<^item> \<open>Task i\<close>, when running, performs its \<^verbatim>\<open>uploadBlob\<close> and, returning or starting to
    panic, the deferred \<^verbatim>\<open>wg.Done()\<close>; when panicking, its next move ends the program.
  A move that is not enabled leaves the state as it is, and so does every move after the
  program has ended. What the process does once \<^verbatim>\<open>main\<close> has returned is not modelled.
\<close>

datatype panic_value = UploadError string | RuntimeError runtime_panic

datatype task = NotStarted | Running | Finished | Panicking panic_value

datatype pc = ForRange nat | WgWait | Stats | Returned

datatype proc = Live | Crashed panic_value

datatype actor = Main | Task nat

record run_state =
  pc :: pc
  wg :: int
  tasks :: "task list"
  uploads :: "UploadInput list"
  stdout :: "call list"
  proc :: proc

definition init :: "string list \<Rightarrow> run_state" where
  "init objectNames =
     \<lparr>pc = ForRange 0, wg = 0, tasks = replicate (length objectNames) NotStarted,
      uploads = [], stdout = [], proc = Live\<rparr>"

definition stepMain :: "variant \<Rightarrow> world \<Rightarrow> int \<Rightarrow> string list \<Rightarrow> run_state \<Rightarrow> run_state" where
  "stepMain v w conc objectNames s =
     (case pc s of
        ForRange k \<Rightarrow>
          (if k < length objectNames
           then s\<lparr>wg := wg s + 1, tasks := (tasks s)[k := Running], pc := ForRange (Suc k)\<rparr>
           else s\<lparr>pc := WgWait\<rparr>)
      | WgWait \<Rightarrow> (if wg s = 0 then s\<lparr>pc := Stats\<rparr> else s)
      | Stats \<Rightarrow> s\<lparr>stdout := stdout s @ report v w conc, pc := Returned\<rparr>
      | Returned \<Rightarrow> s)"

definition stepTask ::
  "variant \<Rightarrow> world \<Rightarrow> string list \<Rightarrow> char list \<Rightarrow> nat \<Rightarrow> run_state \<Rightarrow> run_state" where
  "stepTask v w objectNames dat i s =
     (if i < length (tasks s) \<and> i < length objectNames then
        (case tasks s ! i of
           Running \<Rightarrow>
             (case uploadBlob v w dat (objectNames ! i) (metaCountFlag w) (metaSizeFlag w) of
                Inl p \<Rightarrow>
                  s\<lparr>tasks := (tasks s)[i := Panicking (RuntimeError p)], wg := wg s - 1\<rparr>
              | Inr (input, None) \<Rightarrow>
                  s\<lparr>uploads := uploads s @ [input], tasks := (tasks s)[i := Finished],
                    wg := wg s - 1\<rparr>
              | Inr (input, Some err) \<Rightarrow>
                  s\<lparr>uploads := uploads s @ [input],
                    tasks := (tasks s)[i := Panicking (UploadError err)], wg := wg s - 1\<rparr>)
         | Panicking p \<Rightarrow> s\<lparr>proc := Crashed p\<rparr>
         | _ \<Rightarrow> s)
      else s)"

definition step ::
  "variant \<Rightarrow> world \<Rightarrow> int \<Rightarrow> string list \<Rightarrow> char list \<Rightarrow> actor \<Rightarrow> run_state \<Rightarrow> run_state" where
  "step v w conc objectNames dat a s =
     (if proc s \<noteq> Live then s
      else (case a of
              Main \<Rightarrow> stepMain v w conc objectNames s
            | Task i \<Rightarrow> stepTask v w objectNames dat i s))"

fun exec ::
  "variant \<Rightarrow> world \<Rightarrow> int \<Rightarrow> string list \<Rightarrow> char list \<Rightarrow> run_state \<Rightarrow> actor list \<Rightarrow> run_state" where
  "exec v w conc objectNames dat s [] = s"
| "exec v w conc objectNames dat s (a # sched) =
     exec v w conc objectNames dat (step v w conc objectNames dat a s) sched"

text \<open>
  \<^verbatim>\<open>main\<close>: \<^verbatim>\<open>log.Fatalln\<close> on a value of \<^verbatim>\<open>CONCURRENCY\<close> that \<^verbatim>\<open>Atoi\<close> rejects (the error is
  logged and the process exits with status 1), then the names, the payload (a panic of
  \<^verbatim>\<open>bytes.Repeat\<close> ends the program), and the machine above under the given schedule.
\<close>

datatype early_exit = LogFatal num_error | Panic runtime_panic

definition main :: "variant \<Rightarrow> world \<Rightarrow> actor list \<Rightarrow> early_exit + run_state" where
  "main v w sched =
     (case Atoi (Getenv w ''CONCURRENCY'') of
        Inl err \<Rightarrow> Inl (LogFatal err)
      | Inr conc \<Rightarrow>
          (let objectNames = objectNamesLoop v (Getenv w ''NODE'') 0 conc []
           in case bytes_Repeat ''a'' (objectSize w) of
                Inl p \<Rightarrow> Inl (Panic p)
              | Inr dat \<Rightarrow> Inr (exec v w conc objectNames dat (init objectNames) sched)))"

text \<open>What a run has sent to the storage and printed, whichever way it ended.\<close>

definition uploadsOf :: "early_exit + run_state \<Rightarrow> UploadInput list" where
  "uploadsOf r = (case r of Inl x \<Rightarrow> [] | Inr s \<Rightarrow> uploads s)"

definition stdoutOf :: "early_exit + run_state \<Rightarrow> call list" where
  "stdoutOf r = (case r of Inl x \<Rightarrow> [] | Inr s \<Rightarrow> stdout s)"

text \<open>
  The number of goroutines that have been started and have not yet run their deferred
  \<^verbatim>\<open>wg.Done()\<close>, and the invariant that ties the counter of the wait group and the place
  of \<^verbatim>\<open>main\<close> to the tasks.
\<close>

fun running :: "task list \<Rightarrow> nat" where
  "running [] = 0"
| "running (t # ts) = (if t = Running then 1 else 0) + running ts"

definition joined :: "string list \<Rightarrow> run_state \<Rightarrow> bool" where
  "joined names s \<longleftrightarrow>
     length (tasks s) = length names
     \<and> wg s = int (running (tasks s))
     \<and> (case pc s of
          ForRange k \<Rightarrow>
            stdout s = [] \<and> k \<le> length names
            \<and> (\<forall>i < length names. if i < k then tasks s ! i \<noteq> NotStarted
                                   else tasks s ! i = NotStarted)
        | WgWait \<Rightarrow> stdout s = [] \<and> NotStarted \<notin> set (tasks s)
        | Stats \<Rightarrow> stdout s = [] \<and> NotStarted \<notin> set (tasks s) \<and> Running \<notin> set (tasks s)
        | Returned \<Rightarrow> NotStarted \<notin> set (tasks s) \<and> Running \<notin> set (tasks s))"

definition procOf :: "early_exit + run_state \<Rightarrow> proc option" where
  "procOf r = (case r of Inl x \<Rightarrow> None | Inr s \<Rightarrow> Some (proc s))"

subsection \<open>A concrete environment\<close>

text \<open>
  Two objects of four bytes, two metadata entries of three bytes, a storage that accepts
  every upload, a clock that reads 14 July 2017, 02:40:00 UTC at the start and 1.25
  seconds more at the end, in a time zone two hours east of UTC. The concrete runs below
  vary it.
\<close>

definition baseWorld :: world where
  "baseWorld =
     \<lparr>env = [''CONCURRENCY'' \<mapsto> ''2'', ''NODE'' \<mapsto> ''n1'', ''BUCKET'' \<mapsto> ''bench''],
      objectSize = 4, metaCountFlag = 2, metaSizeFlag = 3,
      Upload = (\<lambda>input. None), Intn = (\<lambda>name i. i),
      clockStart = 1500000000000000000, clockSince = 1500000001250000000,
      clockEnd = 1500000001250300000, localOffset = 7200\<rparr>"

section \<open>Formatting loses nothing\<close>

lemma fmtDigits_app: "fmtDigits u buf = fmtDigits u [] @ buf"
proof (induction u arbitrary: buf rule: less_induct)
  case (less u)
  show ?case
  proof (cases "u < 10")
    case True
    then show ?thesis by (simp add: fmtDigits.simps [of u])
  next
    case False
    then have lt: "u div 10 < u" by simp
    have "fmtDigits u buf = fmtDigits (u div 10) (digitChar (u mod 10) # buf)"
      using False by (simp add: fmtDigits.simps [of u buf])
    also have "\<dots> = fmtDigits (u div 10) [] @ digitChar (u mod 10) # buf"
      by (rule less.IH [OF lt])
    also have "\<dots> = (fmtDigits (u div 10) [] @ [digitChar (u mod 10)]) @ buf"
      by simp
    also have "fmtDigits (u div 10) [] @ [digitChar (u mod 10)]
                 = fmtDigits (u div 10) [digitChar (u mod 10)]"
      by (rule less.IH [OF lt, symmetric])
    also have "\<dots> = fmtDigits u []"
      using False by (simp add: fmtDigits.simps [of u "[]"])
    finally show ?thesis .
  qed
qed

lemma fmtDigits_small: "u < 10 \<Longrightarrow> fmtDigits u [] = [digitChar u]"
  by (simp add: fmtDigits.simps [of u])

lemma fmtDigits_big:
  "\<not> u < 10 \<Longrightarrow> fmtDigits u [] = fmtDigits (u div 10) [] @ [digitChar (u mod 10)]"
  using fmtDigits_app [of "u div 10" "[digitChar (u mod 10)]"]
  by (simp add: fmtDigits.simps [of u "[]"])

lemma digitVal_digitChar: "d < 10 \<Longrightarrow> digitVal (digitChar d) = d"
  by (simp add: digitVal_def digitChar_def)

lemma isDigit_digitChar: "d < 10 \<Longrightarrow> isDigit (digitChar d)"
  by (simp add: isDigit_def digitChar_def)

lemma readDigits_app: "readDigits acc (xs @ ys) = readDigits (readDigits acc xs) ys"
  by (induction xs arbitrary: acc) simp_all

lemma readDigits_fmtDigits: "readDigits 0 (fmtDigits u []) = u"
proof (induction u rule: less_induct)
  case (less u)
  show ?case
  proof (cases "u < 10")
    case True
    then show ?thesis by (simp add: fmtDigits_small digitVal_digitChar)
  next
    case False
    then have "readDigits 0 (fmtDigits (u div 10) []) = u div 10"
      by (intro less.IH) simp
    then show ?thesis
      using False by (simp add: fmtDigits_big readDigits_app digitVal_digitChar)
  qed
qed

lemma fmtDigits_all_digits: "list_all isDigit (fmtDigits u [])"
proof (induction u rule: less_induct)
  case (less u)
  show ?case
  proof (cases "u < 10")
    case True
    then show ?thesis by (simp add: fmtDigits_small isDigit_digitChar)
  next
    case False
    then have "list_all isDigit (fmtDigits (u div 10) [])"
      by (intro less.IH) simp
    then show ?thesis
      using False by (simp add: fmtDigits_big isDigit_digitChar)
  qed
qed

lemma fmtDigits_nonempty: "fmtDigits u [] \<noteq> []"
  by (cases "u < 10") (simp_all add: fmtDigits_small fmtDigits_big)

lemma fmtDigits_inj: "fmtDigits a [] = fmtDigits b [] \<Longrightarrow> a = b"
  by (metis readDigits_fmtDigits)

lemma minus_not_digit: "\<not> isDigit (CHR ''-'')"
  by (simp add: isDigit_def)

lemma fmt_d_inj: "fmt_d a = fmt_d b \<Longrightarrow> a = b"
proof -
  assume eq: "fmt_d a = fmt_d b"
  have nohd: "CHR ''-'' # xs \<noteq> fmtDigits u []" for xs u
  proof
    assume "CHR ''-'' # xs = fmtDigits u []"
    then have "list_all isDigit (CHR ''-'' # xs)" using fmtDigits_all_digits [of u] by simp
    then show False by (simp add: minus_not_digit)
  qed
  show ?thesis
  proof (cases "a < 0")
    case True
    show ?thesis
    proof (cases "b < 0")
      case bneg: True
      with True eq have "fmtDigits (nat (- a)) [] = fmtDigits (nat (- b)) []"
        by (simp add: fmt_d_def)
      then have "nat (- a) = nat (- b)" by (rule fmtDigits_inj)
      with True bneg show ?thesis by simp
    next
      case False
      with True eq nohd show ?thesis by (simp add: fmt_d_def)
    qed
  next
    case False
    show ?thesis
    proof (cases "b < 0")
      case True
      with False eq nohd [of _ "nat a"] show ?thesis by (simp add: fmt_d_def) metis
    next
      case bnn: False
      with False eq have "fmtDigits (nat a) [] = fmtDigits (nat b) []"
        by (simp add: fmt_d_def)
      then have "nat a = nat b" by (rule fmtDigits_inj)
      with False bnn show ?thesis by simp
    qed
  qed
qed

lemma objectName_inj: "objectName v nodeNumber a = objectName v nodeNumber b \<Longrightarrow> a = b"
  by (cases v) (auto simp: objectName_def dest: fmt_d_inj)

lemma objectNamesLoop_eq:
  "objectNamesLoop v nodeNumber i conc acc = acc @ map (objectName v nodeNumber) [i + 1..conc]"
proof (induction v nodeNumber i conc acc rule: objectNamesLoop.induct)
  case (1 v nodeNumber i conc objectNames)
  show ?case
  proof (cases "i < conc")
    case True
    then have "[i + 1..conc] = (i + 1) # [i + 1 + 1..conc]"
      by (simp add: upto_rec1)
    with True "1.IH" show ?thesis
      by (simp add: objectNamesLoop.simps [of v nodeNumber i])
  next
    case False
    then show ?thesis by (simp add: objectNamesLoop.simps [of v nodeNumber i])
  qed
qed

section \<open>Object names\<close>

text \<open>
  C2. For a concurrency \<open>c \<ge> 0\<close> the first loop of \<^verbatim>\<open>main\<close> produces exactly \<open>c\<close> names,
  no two of them equal, and the name at position \<open>i\<close> (from 0) is determined by the index
  \<open>i + 1\<close> alone in the older file, and by the index and the value of \<^verbatim>\<open>NODE\<close> in
  \<^verbatim>\<open>parallel-put.go\<close>.
\<close>

theorem object_names_count_distinct:
  assumes "0 \<le> c"
  shows "length (objectNamesLoop v nodeNumber 0 c []) = nat c
       \<and> distinct (objectNamesLoop v nodeNumber 0 c [])
       \<and> (\<forall>i < nat c. objectNamesLoop v nodeNumber 0 c [] ! i =
             (case v of
                ParallelPut \<Rightarrow> ''object-'' @ nodeNumber @ ''-'' @ fmt_d (int i + 1)
              | Part000 \<Rightarrow> ''object'' @ fmt_d (int i + 1)))"
proof -
  let ?f = "objectName v nodeNumber"
  have eq: "objectNamesLoop v nodeNumber 0 c [] = map ?f [1..c]"
    by (simp add: objectNamesLoop_eq)
  have len: "length (map ?f [1..c]) = nat c"
    using assms by simp
  have "inj_on ?f (set [1..c])"
    by (rule inj_onI) (rule objectName_inj)
  then have dist: "distinct (map ?f [1..c])"
    by (simp add: distinct_map)
  have nth: "map ?f [1..c] ! i = ?f (int i + 1)" if "i < nat c" for i
  proof -
    from that have "[1..c] ! i = 1 + int i"
      by (intro nth_upto) linarith
    with that show ?thesis by (simp add: add.commute)
  qed
  have "?f k = (case v of
                ParallelPut \<Rightarrow> ''object-'' @ nodeNumber @ ''-'' @ fmt_d k
              | Part000 \<Rightarrow> ''object'' @ fmt_d k)" for k
    by (simp add: objectName_def)
  with eq len dist nth show ?thesis by simp
qed

theorem object_names_count_distinct_witness:
  "(0::int) \<le> 3
   \<and> length (objectNamesLoop ParallelPut ''n1'' 0 3 []) = 3
   \<and> distinct (objectNamesLoop ParallelPut ''n1'' 0 3 [])
   \<and> objectNamesLoop ParallelPut ''n1'' 0 3 [] ! 0 = ''object-n1-'' @ fmt_d 1
   \<and> objectNamesLoop ParallelPut ''n1'' 0 3 [] ! 2 = ''object-n1-'' @ fmt_d 3"
proof -
  have h: "(0::int) \<le> 3" by simp
  note t = object_names_count_distinct [OF h, of ParallelPut "''n1''"]
  from t have len: "length (objectNamesLoop ParallelPut ''n1'' 0 3 []) = 3"
    by simp
  from t have dist: "distinct (objectNamesLoop ParallelPut ''n1'' 0 3 [])"
    by simp
  from t have nth: "i < nat 3 \<Longrightarrow> objectNamesLoop ParallelPut ''n1'' 0 3 [] ! i =
      ''object-'' @ ''n1'' @ ''-'' @ fmt_d (int i + 1)" for i
    by simp
  from nth [of 0] nth [of 2] len dist show ?thesis by simp
qed

lemma object_names_examples:
  "objectNamesLoop ParallelPut ''n1'' 0 3 [] = [''object-n1-1'', ''object-n1-2'', ''object-n1-3'']"
  "objectNamesLoop Part000 ''n1'' 0 2 [] = [''object1'', ''object2'']"
  by code_simp+

section \<open>Facts about a run\<close>

lemma uploadBlob_Body:
  "uploadBlob v w dat name metaCount metaSize = Inr (input, r) \<Longrightarrow> Body input = dat"
  by (auto simp: uploadBlob_def Let_def split: sum.splits)

lemma step_keeps_Body:
  assumes "\<forall>u \<in> set (uploads s). Body u = dat"
  shows "\<forall>u \<in> set (uploads (step v w conc names dat a s)). Body u = dat"
proof (cases a)
  case Main
  with assms show ?thesis
    by (auto simp: step_def stepMain_def split: pc.splits)
next
  case (Task i)
  with assms show ?thesis
    by (auto simp: step_def stepTask_def dest: uploadBlob_Body
             split: task.splits sum.splits option.splits prod.splits)
qed

lemma exec_keeps_Body:
  "\<forall>u \<in> set (uploads s). Body u = dat \<Longrightarrow>
   \<forall>u \<in> set (uploads (exec v w conc names dat s sched)). Body u = dat"
proof (induction sched arbitrary: s)
  case Nil
  then show ?case by simp
next
  case (Cons a sched)
  from Cons.prems have "\<forall>u \<in> set (uploads (step v w conc names dat a s)). Body u = dat"
    by (rule step_keeps_Body)
  then show ?case by (simp add: Cons.IH)
qed

lemma Atoi_empty: "Atoi [] = Inl ErrSyntax"
  by (simp add: Atoi_def)

section \<open>Configuration errors\<close>

text \<open>
  C5. When \<^verbatim>\<open>CONCURRENCY\<close> is unset (\<^verbatim>\<open>os.Getenv\<close> then gives the empty string) or holds
  something \<^verbatim>\<open>Atoi\<close> rejects, \<^verbatim>\<open>main\<close> ends in \<^verbatim>\<open>log.Fatalln\<close> with that error: no name
  and no payload has been made (a negative size does not get the chance to panic), no
  upload has been sent and nothing is on standard output, under every schedule.
\<close>

theorem unparsable_concurrency_is_fatal:
  assumes "env w ''CONCURRENCY'' = None \<or> Atoi (Getenv w ''CONCURRENCY'') = Inl e"
  shows "(\<exists>err. Atoi (Getenv w ''CONCURRENCY'') = Inl err \<and> main v w sched = Inl (LogFatal err))
       \<and> uploadsOf (main v w sched) = [] \<and> stdoutOf (main v w sched) = []"
proof -
  from assms obtain err where err: "Atoi (Getenv w ''CONCURRENCY'') = Inl err"
    by (auto simp: Getenv_def Atoi_empty)
  then have "main v w sched = Inl (LogFatal err)"
    by (simp add: main_def)
  with err show ?thesis
    by (simp add: uploadsOf_def stdoutOf_def)
qed

theorem unparsable_concurrency_is_fatal_witness:
  "Atoi (Getenv (baseWorld\<lparr>env := [''CONCURRENCY'' \<mapsto> ''abc''], objectSize := - 1\<rparr>) ''CONCURRENCY'')
     = Inl ErrSyntax
   \<and> main ParallelPut (baseWorld\<lparr>env := [''CONCURRENCY'' \<mapsto> ''abc''], objectSize := - 1\<rparr>)
        [Main, Main, Task 0] = Inl (LogFatal ErrSyntax)
   \<and> env (baseWorld\<lparr>env := Map.empty\<rparr>) ''CONCURRENCY'' = None
   \<and> main Part000 (baseWorld\<lparr>env := Map.empty\<rparr>) [Main, Main, Task 0] = Inl (LogFatal ErrSyntax)
   \<and> uploadsOf (main Part000 (baseWorld\<lparr>env := Map.empty\<rparr>) [Main, Main, Task 0]) = []"
proof -
  let ?w1 = "baseWorld\<lparr>env := [''CONCURRENCY'' \<mapsto> ''abc''], objectSize := - 1\<rparr>"
  let ?w2 = "baseWorld\<lparr>env := Map.empty\<rparr>"
  have a1: "Atoi (Getenv ?w1 ''CONCURRENCY'') = Inl ErrSyntax"
    by (simp add: Getenv_def Atoi_def isDigit_def)
  have a2: "env ?w2 ''CONCURRENCY'' = None"
    by simp
  have e2: "Atoi (Getenv ?w2 ''CONCURRENCY'') = Inl ErrSyntax"
    by (simp add: Getenv_def Atoi_def)
  from unparsable_concurrency_is_fatal [of ?w1 ErrSyntax ParallelPut "[Main, Main, Task 0]"] a1
  have r1: "main ParallelPut ?w1 [Main, Main, Task 0] = Inl (LogFatal ErrSyntax)"
    by auto
  from unparsable_concurrency_is_fatal [of ?w2 ErrSyntax Part000 "[Main, Main, Task 0]"] a2 e2
  have r2: "main Part000 ?w2 [Main, Main, Task 0] = Inl (LogFatal ErrSyntax)
          \<and> uploadsOf (main Part000 ?w2 [Main, Main, Task 0]) = []"
    by auto
  from a1 a2 r1 r2 show ?thesis by blast
qed

section \<open>The payload\<close>

text \<open>
  C9. For a size \<open>\<ge> 0\<close> \<^verbatim>\<open>bytes.Repeat\<close> returns a buffer of exactly that many bytes, each
  the letter \<^verbatim>\<open>a\<close>; \<^verbatim>\<open>main\<close> makes it once, and every upload of the run, under every
  schedule, carries that one buffer as its body.
\<close>

theorem payload_length_and_filler:
  assumes "0 \<le> objectSize w"
  shows "bytes_Repeat ''a'' (objectSize w) = Inr (replicate (nat (objectSize w)) (CHR ''a''))
       \<and> length (replicate (nat (objectSize w)) (CHR ''a'')) = nat (objectSize w)
       \<and> (\<forall>u \<in> set (uploadsOf (main v w sched)).
             Body u = replicate (nat (objectSize w)) (CHR ''a''))"
proof -
  let ?dat = "replicate (nat (objectSize w)) (CHR ''a'')"
  have "concat (replicate n ''a'') = replicate n (CHR ''a'')" for n
    by (induction n) simp_all
  then have rep: "bytes_Repeat ''a'' (objectSize w) = Inr ?dat"
    using assms by (simp add: bytes_Repeat_def)
  have "\<forall>u \<in> set (uploadsOf (main v w sched)). Body u = ?dat"
  proof (cases "Atoi (Getenv w ''CONCURRENCY'')")
    case (Inl err)
    then show ?thesis by (simp add: main_def uploadsOf_def)
  next
    case (Inr conc)
    have "\<forall>u \<in> set (uploads (exec v w conc names ?dat (init names) sched)). Body u = ?dat"
      for names
      by (rule exec_keeps_Body) (simp add: init_def)
    with Inr rep show ?thesis
      by (simp add: main_def uploadsOf_def Let_def)
  qed
  with rep show ?thesis by simp
qed


theorem payload_length_and_filler_witness:
  "0 \<le> objectSize baseWorld
   \<and> bytes_Repeat ''a'' (objectSize baseWorld) = Inr ''aaaa''
   \<and> map Body (uploadsOf (main ParallelPut baseWorld
         [Main, Main, Main, Task 0, Task 1, Main, Main])) = [''aaaa'', ''aaaa'']"
proof -
  let ?run = "main ParallelPut baseWorld [Main, Main, Main, Task 0, Task 1, Main, Main]"
  have size4: "objectSize baseWorld = 4"
    by (simp add: baseWorld_def)
  then have nonneg: "0 \<le> objectSize baseWorld"
    by simp
  have "replicate (nat 4) (CHR ''a'') = ''aaaa''"
    by code_simp
  then have four: "replicate (nat (objectSize baseWorld)) (CHR ''a'') = ''aaaa''"
    by (simp only: size4)
  note t = payload_length_and_filler [OF nonneg, of ParallelPut
      "[Main, Main, Main, Task 0, Task 1, Main, Main]"]
  have two: "length (uploadsOf ?run) = 2"
    by code_simp
  from t have "map Body (uploadsOf ?run) = map (\<lambda>u. ''aaaa'') (uploadsOf ?run)"
    by (intro map_cong) (simp_all add: four)
  also have "\<dots> = replicate (length (uploadsOf ?run)) ''aaaa''"
    by (rule map_replicate_const)
  also have "\<dots> = [''aaaa'', ''aaaa'']"
    by (simp only: two numeral_2_eq_2 replicate.simps)
  finally have bodies: "map Body (uploadsOf ?run) = [''aaaa'', ''aaaa'']" .
  from t have "bytes_Repeat ''a'' (objectSize baseWorld) = Inr ''aaaa''"
    by (simp add: four)
  with nonneg bodies show ?thesis by blast
qed

text \<open>
  C10. For a negative size \<^verbatim>\<open>bytes.Repeat\<close> panics. The run then ends before
  \<^verbatim>\<open>parallelUploads\<close>: nothing is uploaded or printed, and when \<^verbatim>\<open>CONCURRENCY\<close> parses,
  the end is that panic and not the logged configuration error.
\<close>

theorem negative_size_panics:
  assumes "objectSize w < 0"
  shows "bytes_Repeat ''a'' (objectSize w) = Inl NegativeRepeatCount
       \<and> (\<exists>x. main v w sched = Inl x)
       \<and> uploadsOf (main v w sched) = [] \<and> stdoutOf (main v w sched) = []
       \<and> (Atoi (Getenv w ''CONCURRENCY'') = Inr c
            \<longrightarrow> main v w sched = Inl (Panic NegativeRepeatCount))"
proof -
  have rep: "bytes_Repeat ''a'' (objectSize w) = Inl NegativeRepeatCount"
    using assms by (simp add: bytes_Repeat_def)
  have early: "\<exists>x. main v w sched = Inl x"
    using rep by (cases "Atoi (Getenv w ''CONCURRENCY'')") (simp_all add: main_def)
  then have quiet: "uploadsOf (main v w sched) = []" "stdoutOf (main v w sched) = []"
    by (auto simp: uploadsOf_def stdoutOf_def)
  have "main v w sched = Inl (Panic NegativeRepeatCount)"
    if "Atoi (Getenv w ''CONCURRENCY'') = Inr c"
    using that rep by (simp add: main_def)
  with rep early quiet show ?thesis by blast
qed

theorem negative_size_panics_witness:
  "objectSize (baseWorld\<lparr>objectSize := - 5\<rparr>) < 0
   \<and> Atoi (Getenv (baseWorld\<lparr>objectSize := - 5\<rparr>) ''CONCURRENCY'') = Inr 2
   \<and> bytes_Repeat ''a'' (- 5) = Inl NegativeRepeatCount
   \<and> main ParallelPut (baseWorld\<lparr>objectSize := - 5\<rparr>) [Main, Main, Main, Task 0, Task 1]
       = Inl (Panic NegativeRepeatCount)
   \<and> uploadsOf (main ParallelPut (baseWorld\<lparr>objectSize := - 5\<rparr>) [Main, Main, Main, Task 0, Task 1]) = []"
proof -
  let ?w = "baseWorld\<lparr>objectSize := - 5\<rparr>"
  have neg: "objectSize ?w < 0" by simp
  have two: "Atoi (Getenv ?w ''CONCURRENCY'') = Inr 2"
    by (simp add: baseWorld_def Getenv_def Atoi_def isDigit_def digitVal_def minInt_def maxInt_def)
  from negative_size_panics [OF neg, of ParallelPut "[Main, Main, Main, Task 0, Task 1]" 2] two neg
  show ?thesis by (simp add: uploadsOf_def)
qed

section \<open>Statistics\<close>



lemma seconds_zero: "seconds 0 = Finite 0"
  by (simp add: seconds_def float64_of_int_def)



lemma report_ParallelPut:
  "report ParallelPut w conc =
     [Printf (''PUT;%s;%s;%d;%d;%d;%s;%f;%f;%s;%s'' @ [CHR 0x0A])
        [S (Getenv w ''NODE''), S (Getenv w ''CONCURRENCY''), I (objectSize w),
         I (metaCountFlag w), I (metaSizeFlag w), D (elapsedOf w),
         F (speed conc (elapsedOf w)), F (bandwidth conc (objectSize w) (elapsedOf w)),
         S (Format (startTime w)), S (Format (time_Now (localOffset w) (clockEnd w)))]]"
  by (simp add: report_def Let_def)

lemma report_Part000:
  "report Part000 w conc =
     [Println [S ''Elapsed time :'', D (elapsedOf w)],
      Printf (''Speed        : %4.0f objs/sec'' @ [CHR 0x0A]) [F (speed conc (elapsedOf w))],
      Printf (''Bandwidth    : %4.0f MBit/sec'' @ [CHR 0x0A])
        [F (bandwidth conc (objectSize w) (elapsedOf w))]]"
  by (simp add: report_def Let_def)




section \<open>Runs without object names\<close>

lemma no_names: "c \<le> 0 \<Longrightarrow> objectNamesLoop v nodeNumber 0 c [] = []"
  by (simp add: objectNamesLoop.simps [of v nodeNumber 0 c])

lemma step_no_tasks:
  assumes "tasks s = []" and "uploads s = []" and "proc s = Live" and "wg s = 0"
  shows "tasks (step v w conc [] dat a s) = [] \<and> uploads (step v w conc [] dat a s) = []
       \<and> proc (step v w conc [] dat a s) = Live \<and> wg (step v w conc [] dat a s) = 0"
proof (cases a)
  case Main
  with assms show ?thesis
    by (cases "pc s") (simp_all add: step_def stepMain_def)
next
  case (Task i)
  with assms show ?thesis
    by (simp add: step_def stepTask_def)
qed

lemma exec_no_tasks:
  "tasks s = [] \<Longrightarrow> uploads s = [] \<Longrightarrow> proc s = Live \<Longrightarrow> wg s = 0 \<Longrightarrow>
   tasks (exec v w conc [] dat s sched) = [] \<and> uploads (exec v w conc [] dat s sched) = []
   \<and> proc (exec v w conc [] dat s sched) = Live"
proof (induction sched arbitrary: s)
  case Nil
  then show ?case by simp
next
  case (Cons a sched)
  from step_no_tasks [OF Cons.prems, of v w conc dat a]
  show ?case by (simp add: Cons.IH)
qed

lemma exec_no_names_two:
  "pc (exec v w conc [] dat (init []) [Main, Main]) = Stats"
  by (simp add: step_def stepMain_def init_def)

lemma exec_no_names_three:
  "exec v w conc [] dat (init []) [Main, Main, Main] =
     \<lparr>pc = Returned, wg = 0, tasks = [], uploads = [], stdout = report v w conc, proc = Live\<rparr>"
  by (simp add: step_def stepMain_def init_def)

lemma main_no_names:
  assumes "Atoi (Getenv w ''CONCURRENCY'') = Inr c" and "c \<le> 0" and "0 \<le> objectSize w"
  shows "main v w sched =
           Inr (exec v w c [] (concat (replicate (nat (objectSize w)) ''a'')) (init []) sched)"
  using assms by (simp add: main_def no_names bytes_Repeat_def)

lemma stats_of_zero:
  "speed 0 e = (if e = 0 then NaN else Finite 0)"
  "bandwidth 0 s e = (if e = 0 then NaN else Finite 0)"
  by (simp_all add: speed_def bandwidth_def seconds_def float64_of_int_def totalSize_def
        mulInt_def wrapInt_def)

text \<open>
  C8. With \<^verbatim>\<open>CONCURRENCY\<close> parsing as 0 (and a size that \<^verbatim>\<open>bytes.Repeat\<close> accepts) no
  schedule uploads anything or ends the program by a panic; \<^verbatim>\<open>wg.Wait()\<close> is passed
  by the first move of \<^verbatim>\<open>main\<close> after the empty loop; the report is printed; and the
  division by the elapsed time gives, for throughput and bandwidth alike, 0 when the
  elapsed time is not zero and the not-a-number value of \<^verbatim>\<open>float64\<close> when it is.
\<close>

theorem zero_concurrency_run:
  assumes "Atoi (Getenv w ''CONCURRENCY'') = Inr 0" and "0 \<le> objectSize w"
  shows "uploadsOf (main v w sched) = []
       \<and> (\<exists>s. main v w sched = Inr s \<and> proc s = Live)
       \<and> (\<exists>s. main v w [Main, Main] = Inr s \<and> pc s = Stats)
       \<and> stdoutOf (main v w [Main, Main, Main]) = report v w 0
       \<and> speed 0 (elapsedOf w) = (if elapsedOf w = 0 then NaN else Finite 0)
       \<and> bandwidth 0 (objectSize w) (elapsedOf w) = (if elapsedOf w = 0 then NaN else Finite 0)"
proof -
  let ?dat = "concat (replicate (nat (objectSize w)) ''a'')"
  have run: "main v w sch = Inr (exec v w 0 [] ?dat (init []) sch)" for sch
    using assms by (intro main_no_names) simp_all
  have inv: "tasks (exec v w 0 [] ?dat (init []) sched) = []
           \<and> uploads (exec v w 0 [] ?dat (init []) sched) = []
           \<and> proc (exec v w 0 [] ?dat (init []) sched) = Live"
    by (rule exec_no_tasks) (simp_all add: init_def)
  have a: "uploadsOf (main v w sched) = []"
    using inv by (simp add: run uploadsOf_def)
  have b: "\<exists>s. main v w sched = Inr s \<and> proc s = Live"
    using inv by (simp add: run)
  have c: "\<exists>s. main v w [Main, Main] = Inr s \<and> pc s = Stats"
    using exec_no_names_two [of v w 0 ?dat] by (simp only: run) blast
  have d: "stdoutOf (main v w [Main, Main, Main]) = report v w 0"
    by (simp only: run exec_no_names_three stdoutOf_def) simp
  from a b c d show ?thesis
    by (simp only: stats_of_zero)
qed

theorem zero_concurrency_run_witness:
  "Atoi (Getenv (baseWorld\<lparr>env := [''CONCURRENCY'' \<mapsto> ''0'']\<rparr>) ''CONCURRENCY'') = Inr 0
   \<and> 0 \<le> objectSize (baseWorld\<lparr>env := [''CONCURRENCY'' \<mapsto> ''0'']\<rparr>)
   \<and> uploadsOf (main ParallelPut (baseWorld\<lparr>env := [''CONCURRENCY'' \<mapsto> ''0'']\<rparr>)
        [Task 0, Main, Task 0, Main, Main, Task 0]) = []
   \<and> speed 0 (elapsedOf (baseWorld\<lparr>env := [''CONCURRENCY'' \<mapsto> ''0'']\<rparr>)) = Finite 0
   \<and> bandwidth 0 4 (elapsedOf (baseWorld\<lparr>env := [''CONCURRENCY'' \<mapsto> ''0'']\<rparr>)) = Finite 0
   \<and> speed 0 (elapsedOf (baseWorld\<lparr>env := [''CONCURRENCY'' \<mapsto> ''0''],
                                      clockSince := 1500000000000000000\<rparr>)) = NaN"
proof -
  let ?w = "baseWorld\<lparr>env := [''CONCURRENCY'' \<mapsto> ''0'']\<rparr>"
  let ?z = "baseWorld\<lparr>env := [''CONCURRENCY'' \<mapsto> ''0''], clockSince := 1500000000000000000\<rparr>"
  have p: "Atoi (Getenv ?w ''CONCURRENCY'') = Inr 0"
    by (simp add: Getenv_def Atoi_def isDigit_def digitVal_def minInt_def maxInt_def)
  have p0: "Atoi (Getenv ?z ''CONCURRENCY'') = Inr 0"
    by (simp add: Getenv_def Atoi_def isDigit_def digitVal_def minInt_def maxInt_def)
  have q: "0 \<le> objectSize ?w" and q0: "0 \<le> objectSize ?z" and sz: "objectSize ?w = 4"
    by (simp_all add: baseWorld_def)
  have e: "elapsedOf ?w = 1250000000"
    by (simp add: elapsedOf_def startTime_def time_Sub_def time_Now_def UTC_def baseWorld_def)
       (simp add: minInt_def maxInt_def)
  have e0: "elapsedOf ?z = 0"
    by (simp add: elapsedOf_def startTime_def time_Sub_def time_Now_def UTC_def baseWorld_def)
       (simp add: minInt_def maxInt_def)
  note t = zero_concurrency_run [OF p q, of ParallelPut "[Task 0, Main, Task 0, Main, Main, Task 0]"]
  note t0 = zero_concurrency_run [OF p0 q0, of ParallelPut "[]"]
  from t have "speed 0 (elapsedOf ?w) = Finite 0" "bandwidth 0 4 (elapsedOf ?w) = Finite 0"
    by (simp_all add: e sz)
  moreover from t0 have "speed 0 (elapsedOf ?z) = NaN"
    by (simp add: e0)
  moreover from t have "uploadsOf (main ParallelPut ?w [Task 0, Main, Task 0, Main, Main, Task 0]) = []"
    by simp
  ultimately show ?thesis using p q by blast
qed

text \<open>
  C6, as amended. A value of \<^verbatim>\<open>CONCURRENCY\<close> that parses as an integer \<open>\<le> 0\<close> is not
  rejected: no object name is generated, no task is started, no schedule uploads anything
  or ends the program by a panic, and (for a size \<open>\<ge> 0\<close>) the run goes through the wait
  and prints its report.
\<close>

theorem nonpositive_concurrency_runs:
  assumes "Atoi (Getenv w ''CONCURRENCY'') = Inr c" and "c \<le> 0" and "0 \<le> objectSize w"
  shows "objectNamesLoop v (Getenv w ''NODE'') 0 c [] = []
       \<and> (\<exists>s. main v w sched = Inr s \<and> proc s = Live \<and> tasks s = [] \<and> uploads s = [])
       \<and> main v w [Main, Main, Main] =
           Inr \<lparr>pc = Returned, wg = 0, tasks = [], uploads = [], stdout = report v w c,
                proc = Live\<rparr>"
proof -
  let ?dat = "concat (replicate (nat (objectSize w)) ''a'')"
  have run: "main v w sch = Inr (exec v w c [] ?dat (init []) sch)" for sch
    using assms by (rule main_no_names)
  have inv: "tasks (exec v w c [] ?dat (init []) sched) = []
           \<and> uploads (exec v w c [] ?dat (init []) sched) = []
           \<and> proc (exec v w c [] ?dat (init []) sched) = Live"
    by (rule exec_no_tasks) (simp_all add: init_def)
  from assms(2) have "objectNamesLoop v (Getenv w ''NODE'') 0 c [] = []"
    by (rule no_names)
  moreover have "\<exists>s. main v w sched = Inr s \<and> proc s = Live \<and> tasks s = [] \<and> uploads s = []"
    using inv by (simp add: run)
  moreover have "main v w [Main, Main, Main] =
           Inr \<lparr>pc = Returned, wg = 0, tasks = [], uploads = [], stdout = report v w c,
                proc = Live\<rparr>"
    by (simp only: run exec_no_names_three)
  ultimately show ?thesis by blast
qed

theorem nonpositive_concurrency_runs_witness:
  "Atoi (Getenv (baseWorld\<lparr>env := [''CONCURRENCY'' \<mapsto> ''-3'']\<rparr>) ''CONCURRENCY'') = Inr (- 3)
   \<and> (- 3 :: int) \<le> 0
   \<and> 0 \<le> objectSize (baseWorld\<lparr>env := [''CONCURRENCY'' \<mapsto> ''-3'']\<rparr>)
   \<and> objectNamesLoop Part000 (Getenv (baseWorld\<lparr>env := [''CONCURRENCY'' \<mapsto> ''-3'']\<rparr>) ''NODE'')
        0 (- 3) [] = []
   \<and> main Part000 (baseWorld\<lparr>env := [''CONCURRENCY'' \<mapsto> ''-3'']\<rparr>) [Main, Main, Main] =
        Inr \<lparr>pc = Returned, wg = 0, tasks = [], uploads = [],
             stdout = report Part000 (baseWorld\<lparr>env := [''CONCURRENCY'' \<mapsto> ''-3'']\<rparr>) (- 3),
             proc = Live\<rparr>"
proof -
  let ?w = "baseWorld\<lparr>env := [''CONCURRENCY'' \<mapsto> ''-3'']\<rparr>"
  have p: "Atoi (Getenv ?w ''CONCURRENCY'') = Inr (- 3)"
    by (simp add: Getenv_def Atoi_def isDigit_def digitVal_def minInt_def maxInt_def)
  have n: "(- 3 :: int) \<le> 0" by simp
  have q: "0 \<le> objectSize ?w" by (simp add: baseWorld_def)
  from nonpositive_concurrency_runs [OF p n q, of Part000 "[]"] p n q
  show ?thesis by blast
qed

text \<open>
  C6 as stated fails at \<^verbatim>\<open>CONCURRENCY=0\<close>: the value parses, and the run ends with the
  report on standard output and the process alive, not in a fatal error.
\<close>

theorem zero_concurrency_not_fatal_counterexample:
  "Atoi (Getenv (baseWorld\<lparr>env := [''CONCURRENCY'' \<mapsto> ''0'']\<rparr>) ''CONCURRENCY'') = Inr 0
   \<and> main ParallelPut (baseWorld\<lparr>env := [''CONCURRENCY'' \<mapsto> ''0'']\<rparr>) [Main, Main, Main] =
        Inr \<lparr>pc = Returned, wg = 0, tasks = [], uploads = [],
             stdout = report ParallelPut (baseWorld\<lparr>env := [''CONCURRENCY'' \<mapsto> ''0'']\<rparr>) 0,
             proc = Live\<rparr>
   \<and> report ParallelPut (baseWorld\<lparr>env := [''CONCURRENCY'' \<mapsto> ''0'']\<rparr>) 0 \<noteq> []"
proof -
  let ?w = "baseWorld\<lparr>env := [''CONCURRENCY'' \<mapsto> ''0'']\<rparr>"
  have p: "Atoi (Getenv ?w ''CONCURRENCY'') = Inr 0"
    by (simp add: Getenv_def Atoi_def isDigit_def digitVal_def minInt_def maxInt_def)
  have q: "0 \<le> objectSize ?w" by (simp add: baseWorld_def)
  have "main ParallelPut ?w [Main, Main, Main] =
          Inr (exec ParallelPut ?w 0 [] (concat (replicate (nat (objectSize ?w)) ''a'')) (init [])
                 [Main, Main, Main])"
    using p _ q by (rule main_no_names) simp
  then have r: "main ParallelPut ?w [Main, Main, Main] =
        Inr \<lparr>pc = Returned, wg = 0, tasks = [], uploads = [],
             stdout = report ParallelPut ?w 0, proc = Live\<rparr>"
    by (simp only: exec_no_names_three)
  have "report ParallelPut ?w 0 \<noteq> []"
    by (simp add: report_def Let_def)
  with p r show ?thesis by blast
qed

section \<open>Metadata\<close>

lemma randStringBytes_length:
  "0 \<le> n \<Longrightarrow> \<exists>val. randStringBytes draw n = Inr val \<and> length val = nat n"
  by (simp add: randStringBytes_def)

lemma metaKey_inj: "metaKey a = metaKey b \<Longrightarrow> a = b"
  by (simp add: metaKey_def fmt_d_inj)

lemma metaLoop_eq:
  "metaLoop i metaCount val meta =
     (\<lambda>k. if k \<in> metaKey ` {i..metaCount} then Some val else meta k)"
proof (induction i metaCount val meta rule: metaLoop.induct)
  case (1 i metaCount val meta)
  show ?case
  proof (cases "i \<le> metaCount")
    case True
    then have split: "{i..metaCount} = insert i {i + 1..metaCount}"
      by auto
    have "metaLoop i metaCount val meta =
            metaLoop (i + 1) metaCount val (meta(metaKey i \<mapsto> val))"
      using True by (simp add: metaLoop.simps [of i])
    also have "\<dots> = (\<lambda>k. if k \<in> metaKey ` {i + 1..metaCount} then Some val
                          else (meta(metaKey i \<mapsto> val)) k)"
      by (rule "1.IH" [OF True])
    also have "\<dots> = (\<lambda>k. if k \<in> metaKey ` {i..metaCount} then Some val else meta k)"
      by (rule ext) (simp add: split)
    finally show ?thesis .
  next
    case False
    then show ?thesis by (simp add: metaLoop.simps [of i])
  qed
qed

lemma parallel_put_metadata:
  assumes "0 \<le> m" and "0 \<le> v"
  shows "\<exists>meta. uploadBlob_meta ParallelPut draw m v = Inr meta
           \<and> dom meta = metaKey ` {1..m} \<and> card (dom meta) = nat m
           \<and> (\<forall>k \<in> dom meta. \<exists>val. meta k = Some val \<and> length val = nat v)"
proof -
  from assms(2) obtain val where val: "randStringBytes draw v = Inr val" "length val = nat v"
    using randStringBytes_length by blast
  let ?meta = "metaLoop 1 m val Map.empty"
  have run: "uploadBlob_meta ParallelPut draw m v = Inr ?meta"
    by (simp add: uploadBlob_meta_def val)
  have look: "?meta k = (if k \<in> metaKey ` {1..m} then Some val else None)" for k
    by (simp add: metaLoop_eq)
  have dom: "dom ?meta = metaKey ` {1..m}"
    by (auto simp: look dom_def)
  have "inj_on metaKey {1..m}"
    by (rule inj_onI) (rule metaKey_inj)
  then have "card (metaKey ` {1..m}) = card {1..m}"
    by (rule card_image)
  then have card: "card (dom ?meta) = nat m"
    using assms(1) by (simp add: dom)
  have "\<forall>k \<in> dom ?meta. \<exists>x. ?meta k = Some x \<and> length x = nat v"
    by (simp add: dom) (simp add: look val)
  with run dom card show ?thesis by blast
qed

text \<open>
  The older file does not do the same: every round writes the key of \<^verbatim>\<open>metaCount\<close>, with
  a value of 1024 bytes whatever \<^verbatim>\<open>-meta-size\<close> says.
\<close>

lemma metaLoop_part000_eq:
  "n \<le> metaCount \<Longrightarrow>
   \<exists>val. metaLoop_part000 draw n metaCount meta = Inr (meta(metaKey metaCount \<mapsto> val))
        \<and> length val = 1024"
proof (induction draw n metaCount meta rule: metaLoop_part000.induct)
  case (1 draw n metaCount meta)
  obtain val where val: "randStringBytes (\<lambda>j. draw (nat n * 1024 + j)) 1024 = Inr val"
      "length val = 1024"
    using randStringBytes_length [of 1024 "\<lambda>j. draw (nat n * 1024 + j)"] by auto
  have unfold: "metaLoop_part000 draw n metaCount meta =
      metaLoop_part000 draw (n + 1) metaCount (meta(metaKey metaCount \<mapsto> val))"
    using "1.prems" val(1) by (simp add: metaLoop_part000.simps [of draw n])
  show ?case
  proof (cases "n + 1 \<le> metaCount")
    case True
    from "1.IH" [OF "1.prems" val(1) True]
    obtain val' where "metaLoop_part000 draw (n + 1) metaCount (meta(metaKey metaCount \<mapsto> val))
        = Inr ((meta(metaKey metaCount \<mapsto> val))(metaKey metaCount \<mapsto> val'))"
      "length val' = 1024"
      by blast
    with unfold have "metaLoop_part000 draw n metaCount meta
        = Inr (meta(metaKey metaCount \<mapsto> val')) \<and> length val' = 1024"
      by simp
    then show ?thesis by (rule exI)
  next
    case False
    then have "metaLoop_part000 draw (n + 1) metaCount (meta(metaKey metaCount \<mapsto> val))
        = Inr (meta(metaKey metaCount \<mapsto> val))"
      by (simp add: metaLoop_part000.simps [of draw "n + 1"])
    with unfold val(2) have "metaLoop_part000 draw n metaCount meta
        = Inr (meta(metaKey metaCount \<mapsto> val)) \<and> length val = 1024"
      by simp
    then show ?thesis by (rule exI)
  qed
qed

lemma metaKey_2: "metaKey 2 = ''test-metadata-key-2''"
  by code_simp

text \<open>
  C3 holds of \<^verbatim>\<open>parallel-put.go\<close> (\<open>parallel_put_metadata\<close>, for a metadata size \<open>\<ge> 0\<close>)
  and fails in the older file: with \<^verbatim>\<open>-meta-count 2 -meta-size 10\<close> the map it attaches
  has the single key \<^verbatim>\<open>test-metadata-key-2\<close>, with a value of 1024 bytes.
\<close>

theorem part000_metadata_single_key:
  "\<exists>meta val. uploadBlob_meta Part000 draw 2 10 = Inr meta
      \<and> dom meta = {''test-metadata-key-2''} \<and> card (dom meta) = 1
      \<and> meta ''test-metadata-key-2'' = Some val \<and> length val = 1024"
proof -
  obtain val where val: "metaLoop_part000 draw 0 2 Map.empty = Inr [metaKey 2 \<mapsto> val]"
      "length val = 1024"
    using metaLoop_part000_eq [of 0 2 draw Map.empty] by auto
  then have "uploadBlob_meta Part000 draw 2 10 = Inr [''test-metadata-key-2'' \<mapsto> val]"
    by (simp add: uploadBlob_meta_def metaKey_2)
  moreover have "dom [''test-metadata-key-2'' \<mapsto> val] = {''test-metadata-key-2''}"
    by simp
  ultimately show ?thesis using val(2) by auto
qed

section \<open>The report line\<close>

text \<open>
  The line of \<^verbatim>\<open>parallel-put.go\<close> is \<open>report_ParallelPut\<close>: the tag \<^verbatim>\<open>PUT\<close> and ten
  operands separated by semicolons, in the order node, concurrency, size, metadata count,
  metadata size, elapsed time, throughput, bandwidth, start, end. The start is formatted
  after \<^verbatim>\<open>UTC()\<close>; the end is \<^verbatim>\<open>time.Now().Format(...)\<close>, the wall clock of the local time
  zone followed by the same literal \<^verbatim>\<open>Z\<close>: it reads as the UTC time of another instant.
\<close>

lemma Format_start_is_UTC:
  "Format (startTime w) = Format \<lparr>unixNano = clockStart w, zoneOffset = 0\<rparr>"
  by (simp add: startTime_def UTC_def time_Now_def)

lemma Format_local_shift:
  "Format (time_Now off t) = Format (UTC (time_Now off (t + off * 1000000000)))"
  by (simp add: Format_def time_Now_def UTC_def add.commute)

text \<open>
  C7 fails for the end timestamp wherever the local time zone is not UTC. Two hours east
  of UTC, a run that starts at 02:40:00.000 UTC and prints 1.2503 seconds later reports
  the start as \<^verbatim>\<open>02:40:00.000Z\<close> and the end as \<^verbatim>\<open>04:40:01.250Z\<close>; in UTC the end is
  \<^verbatim>\<open>02:40:01.250Z\<close>.
\<close>

theorem end_timestamp_in_local_time:
  "report ParallelPut baseWorld 2 =
     [Printf (''PUT;%s;%s;%d;%d;%d;%s;%f;%f;%s;%s'' @ [CHR 0x0A])
        [S ''n1'', S ''2'', I 4, I 2, I 3, D 1250000000, F (Finite (8 / 5)),
         F (Finite (1 / 163840)), S ''2017-07-14T02:40:00.000Z'',
         S ''2017-07-14T04:40:01.250Z'']]
   \<and> Format (UTC (time_Now (localOffset baseWorld) (clockEnd baseWorld)))
       = ''2017-07-14T02:40:01.250Z''"
  by code_simp

section \<open>Failing uploads\<close>

lemma exec_after_crash: "proc s \<noteq> Live \<Longrightarrow> exec v w conc names dat s sched = s"
  by (induction sched) (simp_all add: step_def)

lemma step_no_panic:
  assumes ok: "\<forall>i < length names. \<exists>input.
      uploadBlob v w dat (names ! i) (metaCountFlag w) (metaSizeFlag w) = Inr (input, None)"
    and live: "proc s = Live"
    and calm: "\<forall>t \<in> set (tasks s). \<forall>p. t \<noteq> Panicking p"
  shows "proc (step v w conc names dat a s) = Live
       \<and> (\<forall>t \<in> set (tasks (step v w conc names dat a s)). \<forall>p. t \<noteq> Panicking p)"
proof (cases a)
  case Main
  have "set ((tasks s)[k := Running]) \<subseteq> insert Running (set (tasks s))" for k
    by (rule set_update_subset_insert)
  with live calm Main show ?thesis
    by (cases "pc s") (auto simp: step_def stepMain_def)
next
  case (Task i)
  show ?thesis
  proof (cases "i < length (tasks s) \<and> i < length names")
    case False
    with live calm Task show ?thesis by (auto simp: step_def stepTask_def)
  next
    case True
    with ok obtain input where
      up: "uploadBlob v w dat (names ! i) (metaCountFlag w) (metaSizeFlag w) = Inr (input, None)"
      by blast
    have sub: "set ((tasks s)[i := Finished]) \<subseteq> insert Finished (set (tasks s))"
      by (rule set_update_subset_insert)
    from True calm have notp: "\<forall>p. tasks s ! i \<noteq> Panicking p"
      by (metis nth_mem)
    show ?thesis
    proof (cases "tasks s ! i")
      case Running
      with True live calm Task up sub show ?thesis
        by (auto simp: step_def stepTask_def)
    next
      case (Panicking p)
      with notp show ?thesis by simp
    qed (use True live calm Task in \<open>auto simp: step_def stepTask_def\<close>)
  qed
qed

lemma exec_no_panic:
  assumes ok: "\<forall>i < length names. \<exists>input.
      uploadBlob v w dat (names ! i) (metaCountFlag w) (metaSizeFlag w) = Inr (input, None)"
  shows "proc s = Live \<Longrightarrow> \<forall>t \<in> set (tasks s). \<forall>p. t \<noteq> Panicking p \<Longrightarrow>
         proc (exec v w conc names dat s sched) = Live"
proof (induction sched arbitrary: s)
  case Nil
  then show ?case by simp
next
  case (Cons a sched)
  from step_no_panic [OF ok Cons.prems, of conc a]
  show ?case by (simp add: Cons.IH)
qed

lemma all_uploads_succeed_no_crash:
  assumes "\<forall>i < length names. \<exists>input.
      uploadBlob v w dat (names ! i) (metaCountFlag w) (metaSizeFlag w) = Inr (input, None)"
  shows "proc (exec v w conc names dat (init names) sched) = Live"
  using assms by (rule exec_no_panic) (simp_all add: init_def)

lemma running_update:
  "i < length ts \<Longrightarrow>
   running (ts[i := t]) + (if ts ! i = Running then 1 else 0)
     = running ts + (if t = Running then 1 else 0)"
proof (induction ts arbitrary: i)
  case Nil
  then show ?case by simp
next
  case (Cons x ts)
  show ?case
  proof (cases i)
    case 0
    then show ?thesis by simp
  next
    case (Suc j)
    with Cons.prems have "j < length ts" by simp
    from Cons.IH [OF this] Suc show ?thesis by simp
  qed
qed

lemma running_zero: "running ts = 0 \<longleftrightarrow> Running \<notin> set ts"
  by (induction ts) auto

lemma running_start:
  "i < length ts \<Longrightarrow> ts ! i = NotStarted \<Longrightarrow> running (ts[i := Running]) = running ts + 1"
  using running_update [of i ts Running] by simp

lemma running_stop:
  "i < length ts \<Longrightarrow> ts ! i = Running \<Longrightarrow> t \<noteq> Running \<Longrightarrow>
   int (running (ts[i := t])) = int (running ts) - 1"
  using running_update [of i ts t] by simp

lemma not_in_update: "x \<notin> set ts \<Longrightarrow> x \<noteq> t \<Longrightarrow> x \<notin> set (ts[i := t])"
  using set_update_subset_insert [of ts i t] by auto

lemma init_joined: "joined names (init names)"
  by (simp add: joined_def init_def) (induction names; simp)

lemma stepMain_joined:
  assumes "joined names s"
  shows "joined names (stepMain v w conc names s)"
proof (cases "pc s")
  case (ForRange k)
  show ?thesis
  proof (cases "k < length names")
    case True
    with assms ForRange have at: "tasks s ! k = NotStarted" and len: "k < length (tasks s)"
      by (auto simp: joined_def)
    from assms ForRange True len at show ?thesis
      by (auto simp: joined_def stepMain_def running_start nth_list_update)
  next
    case False
    with assms ForRange have k: "k = length names" and
      all: "\<forall>i < length names. tasks s ! i \<noteq> NotStarted"
      by (auto simp: joined_def)
    from assms all have "NotStarted \<notin> set (tasks s)"
      by (auto simp: joined_def in_set_conv_nth)
    with assms ForRange False show ?thesis
      by (auto simp: joined_def stepMain_def)
  qed
next
  case WgWait
  with assms show ?thesis
    by (auto simp: joined_def stepMain_def running_zero)
next
  case Stats
  with assms show ?thesis
    by (auto simp: joined_def stepMain_def)
next
  case Returned
  with assms show ?thesis
    by (auto simp: joined_def stepMain_def)
qed

lemma finish_joined:
  assumes j: "joined names s" and i: "i < length (tasks s)" and r: "tasks s ! i = Running"
    and t: "t \<noteq> Running" "t \<noteq> NotStarted"
  shows "joined names (s\<lparr>uploads := us, tasks := (tasks s)[i := t], wg := wg s - 1\<rparr>)"
proof -
  from i r have mem: "Running \<in> set (tasks s)"
    by (metis nth_mem)
  have cnt: "int (running ((tasks s)[i := t])) = int (running (tasks s)) - 1"
    using i r t(1) by (rule running_stop)
  show ?thesis
  proof (cases "pc s")
    case (ForRange k)
    with j i have "if i < k then tasks s ! i \<noteq> NotStarted else tasks s ! i = NotStarted"
      by (simp add: joined_def)
    with r have "i < k"
      by (cases "i < k") simp_all
    with ForRange j i r t cnt show ?thesis
      by (auto simp: joined_def nth_list_update)
  next
    case WgWait
    with j t cnt show ?thesis
      by (auto simp: joined_def not_in_update)
  next
    case Stats
    with j mem show ?thesis by (simp add: joined_def)
  next
    case Returned
    with j mem show ?thesis by (simp add: joined_def)
  qed
qed

lemma joined_crash: "joined names (s\<lparr>proc := x\<rparr>) \<longleftrightarrow> joined names s"
  by (cases "pc s") (simp_all add: joined_def)

lemma stepTask_joined:
  assumes "joined names s"
  shows "joined names (stepTask v w names dat i s)"
proof (cases "i < length (tasks s) \<and> i < length names")
  case False
  with assms show ?thesis by (auto simp: stepTask_def)
next
  case True
  show ?thesis
  proof (cases "tasks s ! i")
    case Running
    have a: "joined names (s\<lparr>uploads := us, tasks := (tasks s)[i := Finished], wg := wg s - 1\<rparr>)" for us
      using assms True Running by (intro finish_joined) simp_all
    have b: "joined names (s\<lparr>uploads := us, tasks := (tasks s)[i := Panicking p], wg := wg s - 1\<rparr>)"
      for us p
      using assms True Running by (intro finish_joined) simp_all
    have c: "joined names (s\<lparr>tasks := (tasks s)[i := Panicking p], wg := wg s - 1\<rparr>)" for p
      using b [where us = "uploads s" and p = p] by simp
    from True Running a b c show ?thesis
      by (simp add: stepTask_def split: sum.splits prod.splits option.splits)
  next
    case (Panicking p)
    with assms True show ?thesis
      by (simp add: stepTask_def joined_crash)
  qed (use assms True in \<open>simp_all add: stepTask_def\<close>)
qed

lemma step_joined: "joined names s \<Longrightarrow> joined names (step v w conc names dat a s)"
  by (cases a) (simp_all add: step_def stepMain_joined stepTask_joined)

lemma exec_joined: "joined names s \<Longrightarrow> joined names (exec v w conc names dat s sched)"
  by (induction sched arbitrary: s) (simp_all add: step_joined)

lemma report_only_after_all_done:
  assumes "stdout (exec v w conc names dat (init names) sched) \<noteq> []"
  shows "\<forall>t \<in> set (tasks (exec v w conc names dat (init names) sched)).
           t = Finished \<or> (\<exists>p. t = Panicking p)"
proof -
  let ?s = "exec v w conc names dat (init names) sched"
  have "joined names ?s"
    by (rule exec_joined) (rule init_joined)
  with assms have "NotStarted \<notin> set (tasks ?s) \<and> Running \<notin> set (tasks ?s)"
    by (cases "pc ?s") (simp_all add: joined_def)
  then show ?thesis
    by (metis task.exhaust)
qed

text \<open>
  C4 fails under one interleaving. One object, whose upload the storage refuses: when the
  task has made its upload and, starting to panic, its deferred \<^verbatim>\<open>wg.Done()\<close>, and
  \<^verbatim>\<open>main\<close> then moves twice before the panic ends the program, the report is on standard
  output although the upload failed. When the panic ends the program before \<^verbatim>\<open>main\<close>
  moves, nothing is printed. Under every schedule a report is printed only after every
  upload call has returned, successfully or not (\<open>report_only_after_all_done\<close>), and a
  run whose uploads all succeed never ends in a panic (\<open>all_uploads_succeed_no_crash\<close>).
\<close>

theorem report_printed_despite_failed_upload:
  "uploadsOf (main ParallelPut
       (baseWorld\<lparr>env := [''CONCURRENCY'' \<mapsto> ''1''], Upload := (\<lambda>input. Some ''connection refused'')\<rparr>)
       [Main, Main, Task 0, Main, Main, Task 0]) \<noteq> []
   \<and> stdoutOf (main ParallelPut
       (baseWorld\<lparr>env := [''CONCURRENCY'' \<mapsto> ''1''], Upload := (\<lambda>input. Some ''connection refused'')\<rparr>)
       [Main, Main, Task 0, Main, Main, Task 0])
     = report ParallelPut
       (baseWorld\<lparr>env := [''CONCURRENCY'' \<mapsto> ''1''], Upload := (\<lambda>input. Some ''connection refused'')\<rparr>) 1
   \<and> procOf (main ParallelPut
       (baseWorld\<lparr>env := [''CONCURRENCY'' \<mapsto> ''1''], Upload := (\<lambda>input. Some ''connection refused'')\<rparr>)
       [Main, Main, Task 0, Main, Main, Task 0])
     = Some (Crashed (UploadError ''connection refused''))
   \<and> stdoutOf (main ParallelPut
       (baseWorld\<lparr>env := [''CONCURRENCY'' \<mapsto> ''1''], Upload := (\<lambda>input. Some ''connection refused'')\<rparr>)
       [Main, Main, Task 0, Task 0, Main, Main]) = []
   \<and> procOf (main ParallelPut
       (baseWorld\<lparr>env := [''CONCURRENCY'' \<mapsto> ''1''], Upload := (\<lambda>input. Some ''connection refused'')\<rparr>)
       [Main, Main, Task 0, Task 0, Main, Main])
     = Some (Crashed (UploadError ''connection refused''))"
  by code_simp

end
